theory Spec2Isabelle
  imports Main "HOL-Library.AList"
begin

section \<open>Data model\<close>

text \<open>
  The forum's request handlers (\<^verbatim>\<open>src/forum/views.py\<close>) over an explicit database state.
  \<^verbatim>\<open>request.user\<close> is either Django's anonymous user or an account with a primary key.
\<close>

datatype user = AnonymousUser | User nat

fun is_authenticated :: "user \<Rightarrow> bool" where
  "is_authenticated AnonymousUser = False"
| "is_authenticated (User uid) = True"

text \<open>
  Topic and Post are the two votable models: both carry the many-to-many relation
  \<^verbatim>\<open>votes\<close> (a set of user keys: membership, not a counter), the derived \<^verbatim>\<open>rating\<close> and the
  author's key. A row is stored under its primary key in an association list.
\<close>

record entity =
  user_id :: nat
  votes :: "nat set"
  rating :: int

record topic = entity +
  forum_id :: nat
  views :: int
  closed :: bool
  sticky :: bool
  heresy :: bool
  send_response :: bool

record post = entity +
  topic_id :: nat
  created :: nat

text \<open>
  The database: the account keys, the Topic and Post tables, the per (user, topic)
  last-visited markers, and the clock that \<^verbatim>\<open>now()\<close> reads.
\<close>

record db =
  users :: "nat list"
  topics :: "(nat \<times> topic) list"
  posts :: "(nat \<times> post) list"
  markers :: "((user \<times> nat) \<times> nat) list"
  clock :: nat

text \<open>
  The request: \<^verbatim>\<open>request.user\<close>, \<^verbatim>\<open>request.method\<close> (the field is \<open>request_method\<close>
  here) and the submitted \<^verbatim>\<open>request.POST\<close>.
\<close>

record request =
  user :: user
  request_method :: string
  POST :: "(string \<times> string) list"

datatype model = TopicModel | PostModel

datatype obj = TopicObj topic | PostObj post

datatype error = Http404 | PermissionDenied | IndexError | DoesNotExist

datatype url = IndexUrl | ForumUrl nat | TopicUrl nat | PostUrl nat

text \<open>\<^verbatim>\<open>AddPostForm(topic, user, data)\<close>: the form object, bound to the submitted data or unbound.\<close>

datatype form = AddPostForm nat topic user "(string \<times> string) list option"

record statistic_context =
  active_users_count :: nat
  topics_count :: nat
  posts_count :: nat
  first_post_created :: nat
  views_count :: "int option"
  most_viewed_topics :: "(nat \<times> topic) list"
  most_active_users :: "nat list"
  most_topics_users :: "nat list"

datatype template_context =
    TopicContext "form option" nat "nat \<times> topic" bool "(nat \<times> post) list"
  | AddPostContext form "nat \<times> topic" nat
  | StatisticContext statistic_context

datatype response =
    Redirect url
  | RedirectToLogin
  | TemplateResponse string template_context
  | JsonResponse int bool

type_synonym outcome = "(error + response) \<times> db"

text \<open>
  The predicates and form classes the handlers call live in \<^verbatim>\<open>src/forum/models.py\<close> and
  \<^verbatim>\<open>src/forum/forms.py\<close>, which are not part of the sources at hand. They are parameters of
  every handler: the access predicates of an instance and a user, the rating policy (a
  function of the vote membership), form validation and saving, and \<^verbatim>\<open>Post.delete\<close>.
\<close>

record policy =
  topic_has_access :: "topic \<Rightarrow> user \<Rightarrow> bool"
  post_has_access :: "post \<Rightarrow> user \<Rightarrow> bool"
  topic_can_post :: "topic \<Rightarrow> user \<Rightarrow> bool"
  topic_can_edit :: "topic \<Rightarrow> user \<Rightarrow> bool"
  topic_can_delete :: "topic \<Rightarrow> user \<Rightarrow> bool"
  post_can_delete :: "post \<Rightarrow> user \<Rightarrow> bool"
  rating_of :: "nat set \<Rightarrow> int"
  form_is_valid :: "form \<Rightarrow> bool"
  form_save :: "form \<Rightarrow> db \<Rightarrow> nat \<times> db"
  post_delete :: "nat \<Rightarrow> post \<Rightarrow> db \<Rightarrow> db"

section \<open>Object access\<close>

text \<open>\<^verbatim>\<open>get_object_or_404(model, pk=pk)\<close>: \<open>None\<close> stands for the raised \<^verbatim>\<open>Http404\<close>.\<close>

fun get_object :: "model \<Rightarrow> nat \<Rightarrow> db \<Rightarrow> obj option" where
  "get_object TopicModel pk s = map_option TopicObj (map_of (topics s) pk)"
| "get_object PostModel pk s = map_option PostObj (map_of (posts s) pk)"

fun has_access :: "policy \<Rightarrow> obj \<Rightarrow> user \<Rightarrow> bool" where
  "has_access P (TopicObj t) u = topic_has_access P t u"
| "has_access P (PostObj p) u = post_has_access P p u"

fun obj_votes :: "obj \<Rightarrow> nat set" where
  "obj_votes (TopicObj t) = votes t"
| "obj_votes (PostObj p) = votes p"

fun obj_rating :: "obj \<Rightarrow> int" where
  "obj_rating (TopicObj t) = rating t"
| "obj_rating (PostObj p) = rating p"

fun set_votes :: "nat set \<Rightarrow> obj \<Rightarrow> obj" where
  "set_votes vs (TopicObj t) = TopicObj (t\<lparr>votes := vs\<rparr>)"
| "set_votes vs (PostObj p) = PostObj (p\<lparr>votes := vs\<rparr>)"

fun set_rating :: "int \<Rightarrow> obj \<Rightarrow> obj" where
  "set_rating r (TopicObj t) = TopicObj (t\<lparr>rating := r\<rparr>)"
| "set_rating r (PostObj p) = PostObj (p\<lparr>rating := r\<rparr>)"

text \<open>\<^verbatim>\<open>obj.save()\<close>: the row with this primary key is overwritten by the instance.\<close>

fun save :: "nat \<Rightarrow> obj \<Rightarrow> db \<Rightarrow> db" where
  "save pk (TopicObj t) s = s\<lparr>topics := AList.update pk t (topics s)\<rparr>"
| "save pk (PostObj p) s = s\<lparr>posts := AList.update pk p (posts s)\<rparr>"

text \<open>
  \<^verbatim>\<open>obj.votes.add(user)\<close> and \<^verbatim>\<open>obj.votes.remove(user)\<close> write the membership relation at once.
\<close>

definition votes_add :: "nat \<Rightarrow> nat \<Rightarrow> obj \<Rightarrow> db \<Rightarrow> obj \<times> db" where
  "votes_add pk uid ob s =
     (let ob' = set_votes (insert uid (obj_votes ob)) ob in (ob', save pk ob' s))"

definition votes_remove :: "nat \<Rightarrow> nat \<Rightarrow> obj \<Rightarrow> db \<Rightarrow> obj \<times> db" where
  "votes_remove pk uid ob s =
     (let ob' = set_votes (obj_votes ob - {uid}) ob in (ob', save pk ob' s))"

text \<open>
  Modelled from the spec: \<^verbatim>\<open>update_rating\<close> of Topic and Post is defined in
  \<^verbatim>\<open>src/forum/models.py\<close>, which is missing. The spec (4.3, step 3): it "recomputes and
  persists rating as a pure function of the updated membership set"; the function itself
  is the policy's \<open>rating_of\<close>.
\<close>

definition update_rating :: "policy \<Rightarrow> nat \<Rightarrow> obj \<Rightarrow> db \<Rightarrow> obj \<times> db" where
  "update_rating P pk ob s =
     (let ob' = set_rating (rating_of P (obj_votes ob)) ob in (ob', save pk ob' s))"

section \<open>Handlers\<close>

text \<open>\<^verbatim>\<open>@login_required\<close>: an anonymous request is redirected to the login page before the view runs.\<close>

definition login_required ::
  "(request \<Rightarrow> nat \<Rightarrow> db \<Rightarrow> outcome) \<Rightarrow> request \<Rightarrow> nat \<Rightarrow> db \<Rightarrow> outcome" where
  "login_required view rq pk s =
     (if is_authenticated (user rq) then view rq pk s else (Inr RedirectToLogin, s))"

text \<open>
  \<^verbatim>\<open>vote(request, pk, model)\<close>, lines 311-333. The object is looked up first; the case
  on the user is the test \<^verbatim>\<open>user.is_authenticated()\<close>, and gives the key \<^verbatim>\<open>user.pk\<close>.
\<close>

definition vote :: "policy \<Rightarrow> request \<Rightarrow> nat \<Rightarrow> model \<Rightarrow> db \<Rightarrow> outcome" where
  "vote P rq pk m s =
     (case get_object m pk s of
        None \<Rightarrow> (Inl Http404, s)
      | Some ob \<Rightarrow>
          (case user rq of
             AnonymousUser \<Rightarrow> (Inl PermissionDenied, s)
           | User uid \<Rightarrow>
               if \<not> has_access P ob (user rq) then (Inl PermissionDenied, s)
               else
                 let (ob1, s1, voted) =
                       (if uid \<in> obj_votes ob
                        then (let (o', s') = votes_remove pk uid ob s in (o', s', False))
                        else (let (o', s') = votes_add pk uid ob s in (o', s', True)));
                     (ob2, s2) = update_rating P pk ob1 s1
                 in (Inr (JsonResponse (obj_rating ob2) voted), s2)))"

text \<open>
  \<^verbatim>\<open>Topic.objects.filter(pk=pk).update(views=F('views') + 1)\<close>: the increment is done by the
  store on the row itself, not on the instance the handler holds.
\<close>

definition update_views :: "nat \<Rightarrow> db \<Rightarrow> db" where
  "update_views pk s =
     s\<lparr>topics := map (\<lambda>(k, t). if k = pk then (k, t\<lparr>views := views t + 1\<rparr>) else (k, t)) (topics s)\<rparr>"

text \<open>\<^verbatim>\<open>topic.posts.all()\<close>: the posts whose foreign key is this topic.\<close>

definition topic_posts :: "nat \<Rightarrow> db \<Rightarrow> (nat \<times> post) list" where
  "topic_posts pk s = filter (\<lambda>(k, p). topic_id p = pk) (posts s)"

text \<open>
  Modelled from the spec: \<^verbatim>\<open>Topic.mark_visited_for\<close> is defined in the missing
  \<^verbatim>\<open>src/forum/models.py\<close>. The spec (4.2): "called once per topic view; upserts a
  ReadMarker for (user, topic) to the current time".
\<close>

definition mark_visited_for :: "nat \<Rightarrow> user \<Rightarrow> db \<Rightarrow> db" where
  "mark_visited_for pk u s = s\<lparr>markers := AList.update (u, pk) (clock s) (markers s)\<rparr>"

text \<open>
  Modelled from the spec: \<^verbatim>\<open>object_list\<close> is defined in the missing \<^verbatim>\<open>src/utils/views.py\<close>.
  The spec (6): the handler answers with the rendered list page; the page is the template,
  the evaluated query and the extra context (the cut into pages is left to the renderer).
\<close>

definition object_list ::
  "string \<Rightarrow> ((nat \<times> post) list \<Rightarrow> template_context) \<Rightarrow> (nat \<times> post) list \<Rightarrow> response" where
  "object_list template_name extra_context qs = TemplateResponse template_name (extra_context qs)"

text \<open>\<^verbatim>\<open>topic_page(request, pk)\<close>, lines 60-84.\<close>

definition topic_page :: "policy \<Rightarrow> request \<Rightarrow> nat \<Rightarrow> db \<Rightarrow> outcome" where
  "topic_page P rq pk s =
     (case map_of (topics s) pk of
        None \<Rightarrow> (Inl Http404, s)
      | Some topic \<Rightarrow>
          if \<not> topic_has_access P topic (user rq) then (Inl Http404, s)
          else
            let s1 = update_views pk s;
                form = (if topic_can_post P topic (user rq)
                        then Some (AddPostForm pk topic (user rq) None) else None);
                s2 = mark_visited_for pk (user rq) s1
            in (Inr (object_list ''djforum/topic.html''
                       (TopicContext form (forum_id topic) (pk, topic)
                          (topic_has_access P topic (user rq)))
                       (topic_posts pk s2)), s2))"

text \<open>\<^verbatim>\<open>add_post(request, pk)\<close>, lines 178-195; \<^verbatim>\<open>request.POST or None\<close> is the submitted data.\<close>

definition add_post :: "policy \<Rightarrow> request \<Rightarrow> nat \<Rightarrow> db \<Rightarrow> outcome" where
  "add_post P = login_required (\<lambda>rq pk s.
     case map_of (topics s) pk of
       None \<Rightarrow> (Inl Http404, s)
     | Some topic \<Rightarrow>
         if \<not> topic_has_access P topic (user rq) then (Inl Http404, s)
         else
           let form = AddPostForm pk topic (user rq) (if POST rq = [] then None else Some (POST rq))
           in if form_is_valid P form
              then (let (post_pk, s') = form_save P form s in (Inr (Redirect (PostUrl post_pk)), s'))
              else (Inr (TemplateResponse ''djforum/add_post.html''
                           (AddPostContext form (pk, topic) (forum_id topic))), s))"

text \<open>
  Modelled from the spec: the six flag setters of Topic are defined in the missing
  \<^verbatim>\<open>src/forum/models.py\<close>. The spec (4.4): each operation "flips exactly one boolean;
  persists; has no side effects on the other two flags".
\<close>

definition mark_heresy :: "nat \<Rightarrow> topic \<Rightarrow> db \<Rightarrow> db" where
  "mark_heresy pk t s = save pk (TopicObj (t\<lparr>heresy := True\<rparr>)) s"

definition unmark_heresy :: "nat \<Rightarrow> topic \<Rightarrow> db \<Rightarrow> db" where
  "unmark_heresy pk t s = save pk (TopicObj (t\<lparr>heresy := False\<rparr>)) s"

definition close :: "nat \<Rightarrow> topic \<Rightarrow> db \<Rightarrow> db" where
  "close pk t s = save pk (TopicObj (t\<lparr>closed := True\<rparr>)) s"

definition open_topic :: "nat \<Rightarrow> topic \<Rightarrow> db \<Rightarrow> db" where
  "open_topic pk t s = save pk (TopicObj (t\<lparr>closed := False\<rparr>)) s"

definition stick :: "nat \<Rightarrow> topic \<Rightarrow> db \<Rightarrow> db" where
  "stick pk t s = save pk (TopicObj (t\<lparr>sticky := True\<rparr>)) s"

definition unstick :: "nat \<Rightarrow> topic \<Rightarrow> db \<Rightarrow> db" where
  "unstick pk t s = save pk (TopicObj (t\<lparr>sticky := False\<rparr>)) s"

text \<open>\<^verbatim>\<open>heresy_unheresy_topic\<close>, \<^verbatim>\<open>close_open_topic\<close>, \<^verbatim>\<open>stick_unstick_topic\<close>, lines 238-280.\<close>

definition heresy_unheresy_topic :: "policy \<Rightarrow> request \<Rightarrow> nat \<Rightarrow> db \<Rightarrow> outcome" where
  "heresy_unheresy_topic P = login_required (\<lambda>rq pk s.
     case map_of (topics s) pk of
       None \<Rightarrow> (Inl Http404, s)
     | Some topic \<Rightarrow>
         if \<not> topic_can_edit P topic (user rq) then (Inl PermissionDenied, s)
         else (Inr (Redirect (TopicUrl pk)),
               if heresy topic then unmark_heresy pk topic s else mark_heresy pk topic s))"

definition close_open_topic :: "policy \<Rightarrow> request \<Rightarrow> nat \<Rightarrow> db \<Rightarrow> outcome" where
  "close_open_topic P = login_required (\<lambda>rq pk s.
     case map_of (topics s) pk of
       None \<Rightarrow> (Inl Http404, s)
     | Some topic \<Rightarrow>
         if \<not> topic_can_edit P topic (user rq) then (Inl PermissionDenied, s)
         else (Inr (Redirect (TopicUrl pk)),
               if closed topic then open_topic pk topic s else close pk topic s))"

definition stick_unstick_topic :: "policy \<Rightarrow> request \<Rightarrow> nat \<Rightarrow> db \<Rightarrow> outcome" where
  "stick_unstick_topic P = login_required (\<lambda>rq pk s.
     case map_of (topics s) pk of
       None \<Rightarrow> (Inl Http404, s)
     | Some topic \<Rightarrow>
         if \<not> topic_can_edit P topic (user rq) then (Inl PermissionDenied, s)
         else (Inr (Redirect (TopicUrl pk)),
               if sticky topic then unstick pk topic s else stick pk topic s))"

text \<open>
  Modelled from the spec: \<^verbatim>\<open>Topic.delete\<close> belongs to the missing model layer. The spec (3):
  a Topic is "deleted by a user with delete permission, cascading to its Posts".
\<close>

definition topic_delete :: "nat \<Rightarrow> db \<Rightarrow> db" where
  "topic_delete pk s =
     s\<lparr>topics := AList.delete pk (topics s),
       posts := filter (\<lambda>(k, p). topic_id p \<noteq> pk) (posts s)\<rparr>"

text \<open>\<^verbatim>\<open>delete_topic(request, pk)\<close>, lines 283-293.\<close>

definition delete_topic :: "policy \<Rightarrow> request \<Rightarrow> nat \<Rightarrow> db \<Rightarrow> outcome" where
  "delete_topic P = login_required (\<lambda>rq pk s.
     case map_of (topics s) pk of
       None \<Rightarrow> (Inl Http404, s)
     | Some topic \<Rightarrow>
         if \<not> topic_can_delete P topic (user rq) then (Inl PermissionDenied, s)
         else (Inr (Redirect (ForumUrl (forum_id topic))),
               if request_method rq = ''POST'' then topic_delete pk s else s))"

text \<open>
  \<^verbatim>\<open>delete_post(request, pk)\<close>, lines 296-308. \<^verbatim>\<open>Topic.objects.get(pk=post.topic_id)\<close> is a
  query on the state after the deletion, and \<open>None\<close> is its \<^verbatim>\<open>Topic.DoesNotExist\<close>. In the
  \<^verbatim>\<open>except\<close> branch, \<^verbatim>\<open>post.topic\<close> is evaluated after \<^verbatim>\<open>post.delete()\<close> too: the post came
  from \<^verbatim>\<open>get_object_or_404\<close> and the handler never read its topic, so the attribute is a
  query of its own for the row with key \<^verbatim>\<open>post.topic_id\<close>, on the same state, and raises
  \<^verbatim>\<open>Topic.DoesNotExist\<close> when that row is gone.
\<close>

definition delete_post :: "policy \<Rightarrow> request \<Rightarrow> nat \<Rightarrow> db \<Rightarrow> outcome" where
  "delete_post P = login_required (\<lambda>rq pk s.
     case map_of (posts s) pk of
       None \<Rightarrow> (Inl Http404, s)
     | Some post \<Rightarrow>
         if \<not> post_can_delete P post (user rq) then (Inl PermissionDenied, s)
         else
           let s' = post_delete P pk post s
           in (case map_of (topics s') (topic_id post) of
                 Some topic \<Rightarrow> (Inr (Redirect (TopicUrl (topic_id post))), s')
               | None \<Rightarrow>
                   (case map_of (topics s') (topic_id post) of
                      Some topic \<Rightarrow> (Inr (Redirect (ForumUrl (forum_id topic))), s')
                    | None \<Rightarrow> (Inl DoesNotExist, s'))))"

section \<open>Unread topics\<close>

text \<open>
  Modelled from the spec: \<^verbatim>\<open>Topic.objects.unread\<close> and \<^verbatim>\<open>Topic.objects.unread_count\<close> are
  methods of the manager in the missing \<^verbatim>\<open>src/forum/models.py\<close>. The spec (3, 4.2): a Topic
  is unread for a user "if no marker exists or the marker predates the Topic's last post";
  \<^verbatim>\<open>unread\<close> yields the Topics "having no marker or a stale marker for that user,
  access-filtered"; \<^verbatim>\<open>unread_count\<close> is "a single aggregate count matching the same
  predicate", computed by a counting query of its own and not by exhausting the sequence.
\<close>

definition last_post :: "nat \<Rightarrow> db \<Rightarrow> nat option" where
  "last_post pk s =
     (case topic_posts pk s of
        [] \<Rightarrow> None
      | p # ps \<Rightarrow> Some (fold (\<lambda>(k, q) c. max (created q) c) ps (created (snd p))))"

definition stale :: "user \<Rightarrow> db \<Rightarrow> nat \<Rightarrow> bool" where
  "stale u s pk =
     (case map_of (markers s) (u, pk) of
        None \<Rightarrow> True
      | Some visited \<Rightarrow>
          (case last_post pk s of None \<Rightarrow> False | Some c \<Rightarrow> visited < c))"

definition unread :: "policy \<Rightarrow> user \<Rightarrow> db \<Rightarrow> (nat \<times> topic) list" where
  "unread P u s = filter (\<lambda>(pk, t). stale u s pk \<and> topic_has_access P t u) (topics s)"

fun count_rows :: "policy \<Rightarrow> user \<Rightarrow> db \<Rightarrow> (nat \<times> topic) list \<Rightarrow> nat \<Rightarrow> nat" where
  "count_rows P u s [] n = n"
| "count_rows P u s ((pk, t) # rows) n =
     count_rows P u s rows
       (if topic_has_access P t u
        then (case map_of (markers s) (u, pk) of
                None \<Rightarrow> Suc n
              | Some visited \<Rightarrow>
                  (case last_post pk s of
                     None \<Rightarrow> n
                   | Some c \<Rightarrow> if visited < c then Suc n else n))
        else n)"

definition unread_count :: "policy \<Rightarrow> user \<Rightarrow> db \<Rightarrow> nat" where
  "unread_count P u s = count_rows P u s (topics s) 0"

text \<open>
  \<^verbatim>\<open>UnreadView\<close>, lines 87-101. The base class builds the paginator over the queryset, whose
  count is the length of the listing; \<^verbatim>\<open>get_paginator\<close> then overwrites \<^verbatim>\<open>_count\<close>.
  \<^verbatim>\<open>TOPICS_ON_PAGE\<close> comes from the missing settings module and is an argument.
\<close>

record paginator =
  paginator_object_list :: "(nat \<times> topic) list"
  per_page :: nat
  count :: nat

definition get_queryset :: "policy \<Rightarrow> request \<Rightarrow> db \<Rightarrow> (nat \<times> topic) list" where
  "get_queryset P rq s = unread P (user rq) s"

definition get_paginator ::
  "policy \<Rightarrow> request \<Rightarrow> db \<Rightarrow> (nat \<times> topic) list \<Rightarrow> nat \<Rightarrow> paginator" where
  "get_paginator P rq s queryset paginate_by =
     (let paginator = \<lparr>paginator_object_list = queryset, per_page = paginate_by,
                        count = length queryset\<rparr>
      in paginator\<lparr>count := unread_count P (user rq) s\<rparr>)"

section \<open>Statistics\<close>

text \<open>
  \<^verbatim>\<open>statistic(request)\<close>, lines 336-352. The handler only reads. The sliced querysets are
  evaluated when the page is rendered; \<^verbatim>\<open>order_by('created')[0]\<close> is evaluated in the
  handler and raises \<^verbatim>\<open>IndexError\<close> on an empty result; \<^verbatim>\<open>Sum\<close> over no rows is \<^verbatim>\<open>None\<close>.
\<close>

definition forum_posts_count :: "db \<Rightarrow> nat \<Rightarrow> nat" where
  "forum_posts_count s uid = length (filter (\<lambda>(k, p). user_id p = uid) (posts s))"

definition forum_topics_count :: "db \<Rightarrow> nat \<Rightarrow> nat" where
  "forum_topics_count s uid = length (filter (\<lambda>(k, t). user_id t = uid) (topics s))"

definition statistic :: "request \<Rightarrow> db \<Rightarrow> error + response" where
  "statistic rq s =
     (let most_active = take 10 (sort_key (\<lambda>uid. - int (forum_posts_count s uid)) (users s));
          most_topics = take 10 (sort_key (\<lambda>uid. - int (forum_topics_count s uid)) (users s))
      in case sort_key (\<lambda>(k, p). created p) (posts s) of
           [] \<Rightarrow> Inl IndexError
         | first_post # rest \<Rightarrow>
             Inr (TemplateResponse ''djforum/statistic.html'' (StatisticContext
               \<lparr>active_users_count = length (filter (\<lambda>uid. forum_posts_count s uid \<noteq> 0) (users s)),
                topics_count = length (topics s),
                posts_count = length (posts s),
                first_post_created = created (snd first_post),
                views_count = (if topics s = [] then None
                               else Some (sum_list (map (\<lambda>(k, t). views t) (topics s)))),
                most_viewed_topics = take 10 (sort_key (\<lambda>(k, t). - views t) (topics s)),
                most_active_users = most_active,
                most_topics_users = most_topics\<rparr>)))"

section \<open>A small forum\<close>

text \<open>
  One forum with one topic and one post. User 1 wrote both and has voted for the post;
  user 2 is barred from the forum; only user 1 may edit and delete. The rating counts the
  votes. Deleting the last post of a topic removes the topic with it.
\<close>

definition ex_topic :: topic where
  "ex_topic = \<lparr>user_id = 1, votes = {}, rating = 0, forum_id = 7, views = 5,
                closed = False, sticky = False, heresy = False, send_response = False\<rparr>"

definition ex_post :: post where
  "ex_post = \<lparr>user_id = 1, votes = {1}, rating = 1, topic_id = 1, created = 10\<rparr>"

definition ex_db :: db where
  "ex_db = \<lparr>users = [1, 2, 3], topics = [(1, ex_topic)], posts = [(1, ex_post)],
             markers = [], clock = 20\<rparr>"

definition ex_policy :: policy where
  "ex_policy =
     \<lparr>topic_has_access = (\<lambda>t u. u \<noteq> User 2),
      post_has_access = (\<lambda>p u. u \<noteq> User 2),
      topic_can_post = (\<lambda>t u. is_authenticated u \<and> \<not> closed t),
      topic_can_edit = (\<lambda>t u. u = User 1),
      topic_can_delete = (\<lambda>t u. u = User 1),
      post_can_delete = (\<lambda>p u. u = User 1),
      rating_of = (\<lambda>vs. int (card vs)),
      form_is_valid = (\<lambda>f. False),
      form_save = (\<lambda>f s. (0, s)),
      post_delete = (\<lambda>pk p s.
        let s' = s\<lparr>posts := AList.delete pk (posts s)\<rparr>
        in if topic_posts (topic_id p) s' = [] then topic_delete (topic_id p) s' else s')\<rparr>"

definition ex_request :: "user \<Rightarrow> string \<Rightarrow> request" where
  "ex_request u m = \<lparr>user = u, request_method = m, POST = []\<rparr>"

lemmas ex_defs = ex_db_def ex_post_def ex_topic_def ex_policy_def ex_request_def

section \<open>Voting\<close>

lemma get_object_save:
  "get_object m pk s = Some ob \<Longrightarrow>
   get_object m pk (save pk (set_rating r (set_votes vs ob)) s) = Some (set_rating r (set_votes vs ob))"
  by (cases m; cases ob; auto simp: update_conv')

lemma save_same: "get_object m pk s = Some ob \<Longrightarrow> save pk ob s = s"
  by (cases m; cases ob; auto simp: update_triv)

lemma save_over:
  "save pk (set_rating r' (set_votes vs' (set_rating r (set_votes vs ob))))
     (save pk (set_rating r (set_votes vs ob)) s) = save pk (set_rating r' (set_votes vs' ob)) s"
  by (cases ob) simp_all

lemma set_own: "set_rating (obj_rating ob) (set_votes (obj_votes ob) ob) = ob"
  by (cases ob) simp_all

lemma obj_votes_set: "obj_votes (set_rating r (set_votes vs ob)) = vs"
  by (cases ob) simp_all

lemma toggle_twice:
  "(if uid \<in> (if uid \<in> vs then vs - {uid} else insert uid vs)
    then (if uid \<in> vs then vs - {uid} else insert uid vs) - {uid}
    else insert uid (if uid \<in> vs then vs - {uid} else insert uid vs)) = vs"
  by auto

lemma vote_toggles:
  assumes "get_object m pk s = Some ob" "user rq = User uid" "has_access P ob (User uid)"
  shows "vote P rq pk m s =
    (Inr (JsonResponse
            (rating_of P (if uid \<in> obj_votes ob then obj_votes ob - {uid}
                          else insert uid (obj_votes ob)))
            (uid \<notin> obj_votes ob)),
     save pk (set_rating
                (rating_of P (if uid \<in> obj_votes ob then obj_votes ob - {uid}
                              else insert uid (obj_votes ob)))
                (set_votes (if uid \<in> obj_votes ob then obj_votes ob - {uid}
                            else insert uid (obj_votes ob)) ob)) s)"
  using assms
  by (cases ob) (simp_all add: vote_def votes_add_def votes_remove_def update_rating_def Let_def)

lemma vote_denied:
  assumes "get_object m pk s = Some ob"
    and "\<not> is_authenticated (user rq) \<or> \<not> has_access P ob (user rq)"
  shows "vote P rq pk m s = (Inl PermissionDenied, s)"
  using assms by (cases "user rq") (auto simp: vote_def)

lemma vote_missing: "get_object m pk s = None \<Longrightarrow> vote P rq pk m s = (Inl Http404, s)"
  by (simp add: vote_def)

lemma vote_ok_access:
  assumes "get_object m pk s = Some ob" "vote P rq pk m s = (Inr r, s')"
  shows "is_authenticated (user rq) \<and> has_access P ob (user rq)"
  using assms vote_denied[of m pk s ob rq P] by auto



text \<open>
  C2, as stated, fails: user 1 has already voted for the post, so the first of two
  successive calls withdraws the vote and the second casts it again and reports
  \<open>voted = True\<close>.
\<close>

theorem vote_twice_counterexample:
  "is_authenticated (User 1) \<and>
   get_object PostModel 1 ex_db = Some (PostObj ex_post) \<and>
   has_access ex_policy (PostObj ex_post) (User 1) \<and>
   fst (vote ex_policy (ex_request (User 1) ''POST'') 1 PostModel
          (snd (vote ex_policy (ex_request (User 1) ''POST'') 1 PostModel ex_db)))
     = Inr (JsonResponse 1 True)"
  by (simp add: ex_defs vote_def votes_add_def votes_remove_def update_rating_def)

text \<open>
  C2, amended. When a user votes twice in succession on an entity and both calls go
  through, the first call reports the opposite of the user's voted-state before it and the
  second call reports that state itself (so \<open>voted = False\<close> exactly when the user had not
  voted before); the membership is the original one again and the stored and reported
  rating is the one computed from it, so when the rating was consistent with the membership
  before the first call, the whole state is as before.
\<close>

theorem vote_twice:
  assumes ob: "get_object m pk s = Some ob"
      and u: "user rq = User uid"
      and v1: "vote P rq pk m s = (Inr r1, s1)"
      and v2: "vote P rq pk m s1 = (Inr r2, s2)"
  shows "r1 = JsonResponse (rating_of P (if uid \<in> obj_votes ob then obj_votes ob - {uid}
                                          else insert uid (obj_votes ob))) (uid \<notin> obj_votes ob) \<and>
         r2 = JsonResponse (rating_of P (obj_votes ob)) (uid \<in> obj_votes ob) \<and>
         get_object m pk s2 = Some (set_rating (rating_of P (obj_votes ob)) ob) \<and>
         (obj_rating ob = rating_of P (obj_votes ob) \<longrightarrow> s2 = s)"
proof -
  let ?vs = "if uid \<in> obj_votes ob then obj_votes ob - {uid} else insert uid (obj_votes ob)"
  let ?ob1 = "set_rating (rating_of P ?vs) (set_votes ?vs ob)"
  have a1: "has_access P ob (User uid)"
    using vote_ok_access[OF ob v1] u by simp
  have e1: "r1 = JsonResponse (rating_of P ?vs) (uid \<notin> obj_votes ob)" and s1: "s1 = save pk ?ob1 s"
    using vote_toggles[OF ob u a1] v1 by simp_all
  have ob1: "get_object m pk s1 = Some ?ob1"
    unfolding s1 by (rule get_object_save[OF ob])
  have a2: "has_access P ?ob1 (User uid)"
    using vote_ok_access[OF ob1 v2] u by simp
  have tw: "(if uid \<in> obj_votes ?ob1 then obj_votes ?ob1 - {uid} else insert uid (obj_votes ?ob1))
              = obj_votes ob"
    unfolding obj_votes_set by (rule toggle_twice)
  have e2: "r2 = JsonResponse (rating_of P (obj_votes ob)) (uid \<in> obj_votes ob)"
    and s2: "s2 = save pk (set_rating (rating_of P (obj_votes ob)) (set_votes (obj_votes ob) ?ob1)) s1"
    using vote_toggles[OF ob1 u a2] v2 unfolding tw by (auto simp: obj_votes_set)
  have s2': "s2 = save pk (set_rating (rating_of P (obj_votes ob)) (set_votes (obj_votes ob) ob)) s"
    unfolding s2 s1 by (rule save_over)
  have g2: "get_object m pk s2 = Some (set_rating (rating_of P (obj_votes ob)) ob)"
    using get_object_save[OF ob, of "rating_of P (obj_votes ob)" "obj_votes ob"] s2'
    by (cases ob) simp_all
  have r: "obj_rating ob = rating_of P (obj_votes ob) \<longrightarrow> s2 = s"
    using s2' set_own[of ob] save_same[OF ob] by auto
  from e1 e2 g2 r show ?thesis by blast
qed

theorem vote_twice_witness:
  "vote ex_policy (ex_request (User 3) ''POST'') 1 PostModel ex_db
     = (Inr (JsonResponse 2 True), save 1 (PostObj (ex_post\<lparr>votes := {1, 3}, rating := 2\<rparr>)) ex_db) \<and>
   vote ex_policy (ex_request (User 3) ''POST'') 1 PostModel
       (save 1 (PostObj (ex_post\<lparr>votes := {1, 3}, rating := 2\<rparr>)) ex_db)
     = (Inr (JsonResponse 1 False), ex_db)"
proof -
  let ?rq = "ex_request (User 3) ''POST''"
  let ?s1 = "save 1 (PostObj (ex_post\<lparr>votes := {1, 3}, rating := 2\<rparr>)) ex_db"
  have g: "get_object PostModel 1 ex_db = Some (PostObj ex_post)"
    by (simp add: ex_db_def)
  have u: "user ?rq = User 3"
    by (simp add: ex_request_def)
  have v1: "vote ex_policy ?rq 1 PostModel ex_db = (Inr (JsonResponse 2 True), ?s1)"
    by (simp add: ex_defs vote_def votes_add_def votes_remove_def update_rating_def insert_commute)
  have v2: "vote ex_policy ?rq 1 PostModel ?s1 = (Inr (JsonResponse 1 False), ex_db)"
    by (auto simp: ex_defs vote_def votes_add_def votes_remove_def update_rating_def)
  show ?thesis
    using vote_twice[OF g u v1 v2] v1 v2 by simp
qed

section \<open>Moderation flags\<close>











section \<open>Topic page\<close>

lemma map_of_update_views:
  "map_of (map (\<lambda>(k, t). if k = pk then (k, f t) else (k, t)) al) k'
     = (if k' = pk then map_option f (map_of al k') else map_of al k')"
  by (induction al) auto

lemma topics_update_views:
  "map_of (topics (update_views pk s)) k
     = (if k = pk then map_option (\<lambda>t. t\<lparr>views := views t + 1\<rparr>) (map_of (topics s) k)
        else map_of (topics s) k)"
  by (simp add: update_views_def map_of_update_views)

lemma topic_page_missing:
  "map_of (topics s) pk = None \<Longrightarrow> topic_page P rq pk s = (Inl Http404, s)"
  by (simp add: topic_page_def)

lemma topic_page_hidden:
  "map_of (topics s) pk = Some t \<Longrightarrow> \<not> topic_has_access P t (user rq) \<Longrightarrow>
   topic_page P rq pk s = (Inl Http404, s)"
  by (simp add: topic_page_def)

lemma topic_page_shown:
  assumes "map_of (topics s) pk = Some t" "topic_has_access P t (user rq)"
  shows "topic_page P rq pk s =
    (Inr (TemplateResponse ''djforum/topic.html''
            (TopicContext (if topic_can_post P t (user rq) then Some (AddPostForm pk t (user rq) None) else None)
               (forum_id t) (pk, t) True (topic_posts pk s))),
     mark_visited_for pk (user rq) (update_views pk s))"
  using assms
  by (simp add: topic_page_def Let_def object_list_def topic_posts_def mark_visited_for_def update_views_def)

text \<open>
  C5. A topic page view of an accessible topic, by any user, anonymous included, renders
  the page, leaves the topic's row with \<open>views\<close> one higher, and sets the marker of the
  viewing user for that topic to the current time. A topic that does not exist or that
  the user cannot access gives \<open>Http404\<close> and the state, the counter with it, is unchanged.
\<close>

theorem topic_page_counts_view:
  "(map_of (topics s) pk = None \<longrightarrow> topic_page P rq pk s = (Inl Http404, s)) \<and>
   (map_of (topics s) pk = Some t \<and> \<not> topic_has_access P t (user rq) \<longrightarrow>
      topic_page P rq pk s = (Inl Http404, s)) \<and>
   (map_of (topics s) pk = Some t \<and> topic_has_access P t (user rq) \<longrightarrow>
      topic_page P rq pk s =
        (Inr (TemplateResponse ''djforum/topic.html''
                (TopicContext (if topic_can_post P t (user rq)
                               then Some (AddPostForm pk t (user rq) None) else None)
                   (forum_id t) (pk, t) True (topic_posts pk s))),
         mark_visited_for pk (user rq) (update_views pk s)) \<and>
      map_of (topics (snd (topic_page P rq pk s))) pk = Some (t\<lparr>views := views t + 1\<rparr>) \<and>
      map_of (markers (snd (topic_page P rq pk s))) (user rq, pk) = Some (clock s))"
proof -
  have shown: "map_of (topics s) pk = Some t \<and> topic_has_access P t (user rq) \<longrightarrow>
      map_of (topics (snd (topic_page P rq pk s))) pk = Some (t\<lparr>views := views t + 1\<rparr>) \<and>
      map_of (markers (snd (topic_page P rq pk s))) (user rq, pk) = Some (clock s)"
  proof (intro impI, elim conjE)
    assume t: "map_of (topics s) pk = Some t" and h: "topic_has_access P t (user rq)"
    have "map_of (topics (mark_visited_for pk (user rq) (update_views pk s))) pk
            = Some (t\<lparr>views := views t + 1\<rparr>)"
      using t by (simp add: mark_visited_for_def topics_update_views)
    moreover have "map_of (markers (mark_visited_for pk (user rq) (update_views pk s))) (user rq, pk)
            = Some (clock s)"
      by (simp add: mark_visited_for_def update_conv' update_views_def)
    ultimately show "map_of (topics (snd (topic_page P rq pk s))) pk = Some (t\<lparr>views := views t + 1\<rparr>) \<and>
      map_of (markers (snd (topic_page P rq pk s))) (user rq, pk) = Some (clock s)"
      by (simp add: topic_page_shown[OF t h])
  qed
  from shown topic_page_missing[of s pk P rq] topic_page_hidden[of s pk t P rq]
    topic_page_shown[of s pk t P rq]
  show ?thesis by blast
qed

theorem topic_page_counts_view_witness:
  "map_of (topics ex_db) 1 = Some ex_topic \<and>
   topic_has_access ex_policy ex_topic AnonymousUser \<and>
   \<not> topic_has_access ex_policy ex_topic (User 2) \<and>
   map_of (topics ex_db) 2 = None \<and>
   views ex_topic = 5 \<and>
   map_of (topics (snd (topic_page ex_policy (ex_request AnonymousUser ''GET'') 1 ex_db))) 1
     = Some (ex_topic\<lparr>views := 6\<rparr>) \<and>
   map_of (markers (snd (topic_page ex_policy (ex_request AnonymousUser ''GET'') 1 ex_db)))
     (AnonymousUser, 1) = Some 20 \<and>
   topic_page ex_policy (ex_request (User 2) ''GET'') 1 ex_db = (Inl Http404, ex_db) \<and>
   topic_page ex_policy (ex_request (User 1) ''GET'') 2 ex_db = (Inl Http404, ex_db)"
proof -
  let ?rq0 = "ex_request AnonymousUser ''GET''" and ?rq2 = "ex_request (User 2) ''GET''"
  let ?rq1 = "ex_request (User 1) ''GET''"
  have t: "map_of (topics ex_db) 1 = Some ex_topic" and n: "map_of (topics ex_db) 2 = None"
    and c: "clock ex_db = 20"
    by (simp_all add: ex_db_def)
  have h0: "topic_has_access ex_policy ex_topic (user ?rq0)"
    and h2: "\<not> topic_has_access ex_policy ex_topic (user ?rq2)"
    and u0: "user ?rq0 = AnonymousUser" and u2: "user ?rq2 = User 2"
    by (simp_all add: ex_policy_def ex_request_def)
  have v: "views ex_topic = 5"
    by (simp add: ex_topic_def)
  have p0: "map_of (topics (snd (topic_page ex_policy ?rq0 1 ex_db))) 1
              = Some (ex_topic\<lparr>views := views ex_topic + 1\<rparr>)"
    and m0: "map_of (markers (snd (topic_page ex_policy ?rq0 1 ex_db))) (user ?rq0, 1)
              = Some (clock ex_db)"
    using topic_page_counts_view[of ex_db 1 ex_policy ?rq0 ex_topic] t h0 by blast+
  have p2: "topic_page ex_policy ?rq2 1 ex_db = (Inl Http404, ex_db)"
    using topic_page_counts_view[of ex_db 1 ex_policy ?rq2 ex_topic] t h2 by blast
  have p1: "topic_page ex_policy ?rq1 2 ex_db = (Inl Http404, ex_db)"
    using topic_page_counts_view[of ex_db 2 ex_policy ?rq1 ex_topic] n by blast
  from t n v p0 m0 p2 p1 h0 h2 show ?thesis
    unfolding c u0 u2 v by simp
qed

section \<open>Access failures\<close>

lemma add_post_hidden:
  "is_authenticated (user rq) \<Longrightarrow> map_of (topics s) pk = Some t \<Longrightarrow>
   \<not> topic_has_access P t (user rq) \<Longrightarrow> add_post P rq pk s = (Inl Http404, s)"
  by (simp add: add_post_def login_required_def)

text \<open>
  C1, as stated, fails: user 2 is authenticated and has no access to topic 1, and the vote
  handler answers \<open>PermissionDenied\<close> (Forbidden), not \<open>Http404\<close>.
\<close>

theorem no_access_counterexample:
  "is_authenticated (User 2) \<and>
   map_of (topics ex_db) 1 = Some ex_topic \<and>
   \<not> topic_has_access ex_policy ex_topic (User 2) \<and>
   vote ex_policy (ex_request (User 2) ''POST'') 1 TopicModel ex_db = (Inl PermissionDenied, ex_db)"
  by (simp add: ex_db_def ex_policy_def ex_request_def vote_def)

text \<open>
  C1, amended. For a topic the user has no access to, the topic page view answers
  \<open>Http404\<close> whoever asks and add-post answers \<open>Http404\<close> to an authenticated user, both
  leaving the state unchanged; the vote handler instead answers \<open>PermissionDenied\<close>.
\<close>

theorem no_access_outcomes:
  assumes t: "map_of (topics s) pk = Some t"
      and h: "\<not> topic_has_access P t (user rq)"
  shows "topic_page P rq pk s = (Inl Http404, s) \<and>
         (is_authenticated (user rq) \<longrightarrow> add_post P rq pk s = (Inl Http404, s)) \<and>
         vote P rq pk TopicModel s = (Inl PermissionDenied, s)"
proof -
  have g: "get_object TopicModel pk s = Some (TopicObj t)"
    using t by simp
  have "vote P rq pk TopicModel s = (Inl PermissionDenied, s)"
    using vote_denied[OF g, of rq P] h by simp
  with topic_page_hidden[OF t h] add_post_hidden[OF _ t h] show ?thesis
    by blast
qed

theorem no_access_outcomes_witness:
  "map_of (topics ex_db) 1 = Some ex_topic \<and>
   \<not> topic_has_access ex_policy ex_topic (user (ex_request (User 2) ''POST'')) \<and>
   is_authenticated (user (ex_request (User 2) ''POST'')) \<and>
   topic_page ex_policy (ex_request (User 2) ''POST'') 1 ex_db = (Inl Http404, ex_db) \<and>
   add_post ex_policy (ex_request (User 2) ''POST'') 1 ex_db = (Inl Http404, ex_db) \<and>
   vote ex_policy (ex_request (User 2) ''POST'') 1 TopicModel ex_db = (Inl PermissionDenied, ex_db)"
proof -
  let ?rq = "ex_request (User 2) ''POST''"
  have t: "map_of (topics ex_db) 1 = Some ex_topic"
    by (simp add: ex_db_def)
  have h: "\<not> topic_has_access ex_policy ex_topic (user ?rq)" and a: "is_authenticated (user ?rq)"
    by (simp_all add: ex_policy_def ex_request_def)
  from no_access_outcomes[OF t h] t h a show ?thesis
    by blast
qed

section \<open>Anonymous requests\<close>

lemma decorated_anon:
  assumes "\<not> is_authenticated (user rq)"
  shows "add_post P rq pk s = (Inr RedirectToLogin, s)"
    and "heresy_unheresy_topic P rq pk s = (Inr RedirectToLogin, s)"
    and "close_open_topic P rq pk s = (Inr RedirectToLogin, s)"
    and "stick_unstick_topic P rq pk s = (Inr RedirectToLogin, s)"
    and "delete_topic P rq pk s = (Inr RedirectToLogin, s)"
    and "delete_post P rq pk s = (Inr RedirectToLogin, s)"
  using assms
  by (simp_all add: add_post_def heresy_unheresy_topic_def close_open_topic_def
      stick_unstick_topic_def delete_topic_def delete_post_def login_required_def)

lemma state_differs: "map_of (topics s') pk \<noteq> map_of (topics s) pk \<Longrightarrow> s' \<noteq> s"
  by auto

lemma views_differ: "t\<lparr>views := views t + 1\<rparr> \<noteq> (t::topic)"
proof
  assume "t\<lparr>views := views t + 1\<rparr> = t"
  then have "views (t\<lparr>views := views t + 1\<rparr>) = views t" by simp
  then show False by simp
qed

text \<open>
  C10, as stated, fails: the topic page view has no login wrapper either, and an anonymous
  view of topic 1 changes the state (the view counter goes from 5 to 6).
\<close>

theorem anonymous_view_counterexample:
  "user (ex_request AnonymousUser ''GET'') = AnonymousUser \<and>
   fst (topic_page ex_policy (ex_request AnonymousUser ''GET'') 1 ex_db) \<noteq> Inr RedirectToLogin \<and>
   map_of (topics ex_db) 1 = Some ex_topic \<and>
   views ex_topic = 5 \<and>
   map_of (topics (snd (topic_page ex_policy (ex_request AnonymousUser ''GET'') 1 ex_db))) 1
     = Some (ex_topic\<lparr>views := 6\<rparr>) \<and>
   snd (topic_page ex_policy (ex_request AnonymousUser ''GET'') 1 ex_db) \<noteq> ex_db"
  by (simp add: ex_db_def ex_policy_def ex_request_def ex_topic_def topic_page_def
      object_list_def mark_visited_for_def update_views_def Let_def)

text \<open>
  C10, amended. For an anonymous request: \<open>vote\<close> looks the entity up first and answers
  \<open>Http404\<close> when it does not exist, and otherwise answers \<open>PermissionDenied\<close> from its own
  check, never the login redirect, with the state unchanged; the handlers behind the login
  wrapper answer with the login redirect and change nothing; the topic page view of an
  accessible topic is served and does change the state (the view counter).
\<close>

theorem anonymous_requests:
  assumes u: "user rq = AnonymousUser"
  shows "(get_object m pk s = None \<longrightarrow> vote P rq pk m s = (Inl Http404, s)) \<and>
         (get_object m pk s \<noteq> None \<longrightarrow> vote P rq pk m s = (Inl PermissionDenied, s)) \<and>
         add_post P rq pk s = (Inr RedirectToLogin, s) \<and>
         heresy_unheresy_topic P rq pk s = (Inr RedirectToLogin, s) \<and>
         close_open_topic P rq pk s = (Inr RedirectToLogin, s) \<and>
         stick_unstick_topic P rq pk s = (Inr RedirectToLogin, s) \<and>
         delete_topic P rq pk s = (Inr RedirectToLogin, s) \<and>
         delete_post P rq pk s = (Inr RedirectToLogin, s) \<and>
         (map_of (topics s) pk = Some t \<and> topic_has_access P t AnonymousUser \<longrightarrow>
            snd (topic_page P rq pk s) \<noteq> s \<and>
            map_of (topics (snd (topic_page P rq pk s))) pk = Some (t\<lparr>views := views t + 1\<rparr>))"
proof -
  have n: "\<not> is_authenticated (user rq)"
    using u by simp
  have v1: "get_object m pk s = None \<longrightarrow> vote P rq pk m s = (Inl Http404, s)"
    by (simp add: vote_missing)
  have v2: "get_object m pk s \<noteq> None \<longrightarrow> vote P rq pk m s = (Inl PermissionDenied, s)"
    using vote_denied[of m pk s _ rq P] n by auto
  have tp: "map_of (topics s) pk = Some t \<and> topic_has_access P t AnonymousUser \<longrightarrow>
            snd (topic_page P rq pk s) \<noteq> s \<and>
            map_of (topics (snd (topic_page P rq pk s))) pk = Some (t\<lparr>views := views t + 1\<rparr>)"
  proof (intro impI, elim conjE)
    assume t: "map_of (topics s) pk = Some t" and h: "topic_has_access P t AnonymousUser"
    have r: "map_of (topics (snd (topic_page P rq pk s))) pk = Some (t\<lparr>views := views t + 1\<rparr>)"
      using topic_page_counts_view[of s pk P rq t] t h u by metis
    then have "map_of (topics (snd (topic_page P rq pk s))) pk \<noteq> map_of (topics s) pk"
      using t views_differ[of t] by simp
    with r show "snd (topic_page P rq pk s) \<noteq> s \<and>
            map_of (topics (snd (topic_page P rq pk s))) pk = Some (t\<lparr>views := views t + 1\<rparr>)"
      using state_differs by blast
  qed
  from v1 v2 tp decorated_anon[OF n, of P pk s] show ?thesis
    by blast
qed

theorem anonymous_requests_witness:
  "user (ex_request AnonymousUser ''POST'') = AnonymousUser \<and>
   get_object PostModel 9 ex_db = None \<and>
   vote ex_policy (ex_request AnonymousUser ''POST'') 9 PostModel ex_db = (Inl Http404, ex_db) \<and>
   get_object PostModel 1 ex_db \<noteq> None \<and>
   vote ex_policy (ex_request AnonymousUser ''POST'') 1 PostModel ex_db = (Inl PermissionDenied, ex_db) \<and>
   delete_topic ex_policy (ex_request AnonymousUser ''POST'') 1 ex_db = (Inr RedirectToLogin, ex_db) \<and>
   map_of (topics ex_db) 1 = Some ex_topic \<and>
   topic_has_access ex_policy ex_topic AnonymousUser \<and>
   snd (topic_page ex_policy (ex_request AnonymousUser ''POST'') 1 ex_db) \<noteq> ex_db"
proof -
  let ?rq = "ex_request AnonymousUser ''POST''"
  have u: "user ?rq = AnonymousUser"
    by (simp add: ex_request_def)
  have g9: "get_object PostModel 9 ex_db = None" and g1: "get_object PostModel 1 ex_db \<noteq> None"
    and t: "map_of (topics ex_db) 1 = Some ex_topic"
    by (simp_all add: ex_db_def)
  have h: "topic_has_access ex_policy ex_topic AnonymousUser"
    by (simp add: ex_policy_def)
  from anonymous_requests[OF u, of PostModel 9 ex_db ex_policy ex_topic] g9
  have v9: "vote ex_policy ?rq 9 PostModel ex_db = (Inl Http404, ex_db)"
    by blast
  from anonymous_requests[OF u, of PostModel 1 ex_db ex_policy ex_topic] g1 t h
  have v1: "vote ex_policy ?rq 1 PostModel ex_db = (Inl PermissionDenied, ex_db)"
    and d: "delete_topic ex_policy ?rq 1 ex_db = (Inr RedirectToLogin, ex_db)"
    and p: "snd (topic_page ex_policy ?rq 1 ex_db) \<noteq> ex_db"
    by blast+
  from u g9 v9 g1 v1 d t h p show ?thesis
    by blast
qed

section \<open>Deletion\<close>

lemma topic_deleted: "map_of (topics (topic_delete pk s)) pk = None"
  by (simp add: topic_delete_def delete_conv')

text \<open>
  C8. For an authenticated user and an existing topic: without \<open>can_delete\<close> the
  delete-topic handler answers \<open>PermissionDenied\<close> whatever the method, and changes nothing;
  with it, the handler redirects to the topic's forum, having deleted the topic when the
  method is POST and having changed nothing for any other method.
\<close>

theorem delete_topic_spec:
  assumes a: "is_authenticated (user rq)" and t: "map_of (topics s) pk = Some t"
  shows "(\<not> topic_can_delete P t (user rq) \<longrightarrow> delete_topic P rq pk s = (Inl PermissionDenied, s)) \<and>
         (topic_can_delete P t (user rq) \<and> request_method rq = ''POST'' \<longrightarrow>
            delete_topic P rq pk s = (Inr (Redirect (ForumUrl (forum_id t))), topic_delete pk s) \<and>
            map_of (topics (topic_delete pk s)) pk = None) \<and>
         (topic_can_delete P t (user rq) \<and> request_method rq \<noteq> ''POST'' \<longrightarrow>
            delete_topic P rq pk s = (Inr (Redirect (ForumUrl (forum_id t))), s))"
  using a t by (simp add: delete_topic_def login_required_def topic_deleted)

theorem delete_topic_spec_witness:
  "is_authenticated (user (ex_request (User 1) ''POST'')) \<and>
   map_of (topics ex_db) 1 = Some ex_topic \<and>
   delete_topic ex_policy (ex_request (User 3) ''POST'') 1 ex_db = (Inl PermissionDenied, ex_db) \<and>
   delete_topic ex_policy (ex_request (User 3) ''GET'') 1 ex_db = (Inl PermissionDenied, ex_db) \<and>
   delete_topic ex_policy (ex_request (User 1) ''GET'') 1 ex_db = (Inr (Redirect (ForumUrl 7)), ex_db) \<and>
   delete_topic ex_policy (ex_request (User 1) ''POST'') 1 ex_db
     = (Inr (Redirect (ForumUrl 7)), topic_delete 1 ex_db) \<and>
   map_of (topics (topic_delete 1 ex_db)) 1 = None"
proof -
  have t: "map_of (topics ex_db) 1 = Some ex_topic"
    by (simp add: ex_db_def)
  have f: "forum_id ex_topic = 7"
    by (simp add: ex_topic_def)
  have a: "is_authenticated (user (ex_request (User n) m))" for n m
    by (simp add: ex_request_def)
  have c1: "topic_can_delete ex_policy ex_topic (user (ex_request (User 1) m))"
    and c3: "\<not> topic_can_delete ex_policy ex_topic (user (ex_request (User 3) m))"
    and m: "request_method (ex_request u ''POST'') = ''POST''" "request_method (ex_request u ''GET'') \<noteq> ''POST''"
    for m u
    by (simp_all add: ex_policy_def ex_request_def)
  have d3p: "delete_topic ex_policy (ex_request (User 3) ''POST'') 1 ex_db = (Inl PermissionDenied, ex_db)"
    using delete_topic_spec[OF a t, where P = ex_policy] c3 by blast
  have d3g: "delete_topic ex_policy (ex_request (User 3) ''GET'') 1 ex_db = (Inl PermissionDenied, ex_db)"
    using delete_topic_spec[OF a t, where P = ex_policy] c3 by blast
  have d1g: "delete_topic ex_policy (ex_request (User 1) ''GET'') 1 ex_db
               = (Inr (Redirect (ForumUrl (forum_id ex_topic))), ex_db)"
    using delete_topic_spec[OF a t, where P = ex_policy] c1 m by blast
  have d1p: "delete_topic ex_policy (ex_request (User 1) ''POST'') 1 ex_db
               = (Inr (Redirect (ForumUrl (forum_id ex_topic))), topic_delete 1 ex_db)"
    and gone: "map_of (topics (topic_delete 1 ex_db)) 1 = None"
    using delete_topic_spec[OF a t, where P = ex_policy] c1 m by blast+
  from a[of 1 "''POST''"] t d3p d3g d1g d1p gone show ?thesis
    unfolding f by simp
qed



section \<open>Unread listing and statistics\<close>

lemma count_step:
  "(if topic_has_access P t u
    then (case map_of (markers s) (u, pk) of
            None \<Rightarrow> Suc n
          | Some visited \<Rightarrow>
              (case last_post pk s of
                 None \<Rightarrow> n
               | Some c \<Rightarrow> if visited < c then Suc n else n))
    else n)
   = (if stale u s pk \<and> topic_has_access P t u then Suc n else n)"
  by (simp add: stale_def split: option.splits)

lemma count_rows_filter:
  "count_rows P u s rows n
     = n + length (filter (\<lambda>(pk, t). stale u s pk \<and> topic_has_access P t u) rows)"
proof (induction rows arbitrary: n)
  case Nil
  show ?case by simp
next
  case (Cons r rows)
  obtain pk t where r: "r = (pk, t)"
    by (cases r)
  show ?case
    unfolding r count_rows.simps count_step by (simp add: Cons.IH)
qed

text \<open>
  C6. For every user and state, \<open>unread_count\<close> is the number of topics that \<open>unread\<close>
  yields, and the count that \<^verbatim>\<open>UnreadView\<close> writes into its paginator is the length of the
  listing the paginator pages through.
\<close>

theorem unread_count_matches:
  "unread_count P u s = length (unread P u s) \<and>
   count (get_paginator P rq s (get_queryset P rq s) paginate_by)
     = length (paginator_object_list (get_paginator P rq s (get_queryset P rq s) paginate_by))"
  by (simp add: unread_count_def unread_def count_rows_filter get_paginator_def get_queryset_def)

theorem unread_count_matches_witness:
  "unread ex_policy (User 1) ex_db = [(1, ex_topic)] \<and>
   unread_count ex_policy (User 1) ex_db = 1 \<and>
   unread ex_policy (User 2) ex_db = [] \<and>
   unread_count ex_policy (User 2) ex_db = 0 \<and>
   unread ex_policy (User 1) (mark_visited_for 1 (User 1) ex_db) = [] \<and>
   unread_count ex_policy (User 1) (mark_visited_for 1 (User 1) ex_db) = 0"
proof -
  have u1: "unread ex_policy (User 1) ex_db = [(1, ex_topic)]"
    and u2: "unread ex_policy (User 2) ex_db = []"
    and u3: "unread ex_policy (User 1) (mark_visited_for 1 (User 1) ex_db) = []"
    by (simp_all add: unread_def stale_def last_post_def topic_posts_def mark_visited_for_def
        ex_db_def ex_policy_def ex_post_def)
  show ?thesis
    using unread_count_matches[of ex_policy "User 1" ex_db]
      unread_count_matches[of ex_policy "User 2" ex_db]
      unread_count_matches[of ex_policy "User 1" "mark_visited_for 1 (User 1) ex_db"]
    unfolding u1 u2 u3 by simp
qed

text \<open>
  C7, the code where the claim fails: in any state with no posts the statistics handler
  does not produce a report; the unguarded first-post query raises \<open>IndexError\<close>.
\<close>

theorem statistic_without_posts:
  "statistic rq (s\<lparr>posts := []\<rparr>) = Inl IndexError"
  by (simp add: statistic_def)

text \<open>With at least one post the handler renders the report.\<close>

lemma statistic_with_posts:
  "posts s \<noteq> [] \<Longrightarrow> \<exists>page. statistic rq s = Inr (TemplateResponse ''djforum/statistic.html'' page)"
  by (cases "sort_key (\<lambda>(k, p). created p) (posts s)")
     (auto simp: statistic_def Let_def dest: arg_cong[where f = length])

end
